theory Spec2Isabelle
  imports Main
begin

section \<open>Payload and the canonical signer string\<close>

text \<open>
  The SNS POST body, \<^verbatim>\<open>type Payload struct\<close> of main.go: twelve string fields, in the
  order of the declaration. A field that is missing from the JSON document is the empty
  string in the struct, so absent and empty cannot be told apart once the record exists.
\<close>

record Payload =
  Message :: string
  MessageId :: string
  Signature :: string
  SignatureVersion :: string
  SigningCertURL :: string
  SubscribeURL :: string
  Subject :: string
  Timestamp :: string
  Token :: string
  TopicArn :: string
  Type :: string
  UnsubscribeURL :: string

text \<open>
  \<^verbatim>\<open>reflect.Indirect(reflect.ValueOf(payload)).FieldByName(key)\<close>: the field of that name,
  or the invalid (zero) Value when the struct has no such field. Every field of Payload is a
  string, so a valid Value is its string.
\<close>

definition FieldByName :: "Payload \<Rightarrow> string \<Rightarrow> string option" where
  "FieldByName payload key =
     (if key = ''Message'' then Some (Message payload)
      else if key = ''MessageId'' then Some (MessageId payload)
      else if key = ''Signature'' then Some (Signature payload)
      else if key = ''SignatureVersion'' then Some (SignatureVersion payload)
      else if key = ''SigningCertURL'' then Some (SigningCertURL payload)
      else if key = ''SubscribeURL'' then Some (SubscribeURL payload)
      else if key = ''Subject'' then Some (Subject payload)
      else if key = ''Timestamp'' then Some (Timestamp payload)
      else if key = ''Token'' then Some (Token payload)
      else if key = ''TopicArn'' then Some (TopicArn payload)
      else if key = ''Type'' then Some (Type payload)
      else if key = ''UnsubscribeURL'' then Some (UnsubscribeURL payload)
      else None)"

text \<open>\<^verbatim>\<open>Value.IsValid\<close> and \<^verbatim>\<open>Value.String\<close>; the latter yields a fixed marker on the
  invalid Value instead of panicking.\<close>

definition IsValid :: "string option \<Rightarrow> bool" where
  "IsValid field = (field \<noteq> None)"

definition Value_String :: "string option \<Rightarrow> string" where
  "Value_String field = (case field of None \<Rightarrow> ''<invalid Value>'' | Some s \<Rightarrow> s)"

text \<open>The one-byte string \<^verbatim>\<open>"\n"\<close>.\<close>

definition nl :: string where
  "nl = [CHR 0x0A]"

definition signableKeys :: "string list" where
  "signableKeys =
     [''Message'', ''MessageId'', ''Subject'', ''SubscribeURL'',
      ''Timestamp'', ''Token'', ''TopicArn'', ''Type'']"

text \<open>
  The \<^verbatim>\<open>for _, key := range signableKeys\<close> loop of BuildSignature, with the
  \<^verbatim>\<open>bytes.Buffer\<close> passed along: two \<^verbatim>\<open>WriteString\<close> calls per key that is kept.
\<close>

fun BuildSignature_loop :: "Payload \<Rightarrow> string list \<Rightarrow> string \<Rightarrow> string" where
  "BuildSignature_loop payload [] builtSignature = builtSignature"
| "BuildSignature_loop payload (key # keys) builtSignature =
     (let field = FieldByName payload key;
          val = Value_String field
      in if IsValid field \<and> val \<noteq> []
         then BuildSignature_loop payload keys ((builtSignature @ (key @ nl)) @ (val @ nl))
         else BuildSignature_loop payload keys builtSignature)"

definition BuildSignature :: "Payload \<Rightarrow> string" where
  "BuildSignature payload = BuildSignature_loop payload signableKeys []"

text \<open>The constants of \<^verbatim>\<open>x509.SignatureAlgorithm\<close>, in the order crypto/x509 declares them.\<close>

datatype SignatureAlgorithm_t =
    UnknownSignatureAlgorithm
  | MD2WithRSA | MD5WithRSA | SHA1WithRSA | SHA256WithRSA | SHA384WithRSA | SHA512WithRSA
  | DSAWithSHA1 | DSAWithSHA256
  | ECDSAWithSHA1 | ECDSAWithSHA256 | ECDSAWithSHA384 | ECDSAWithSHA512
  | SHA256WithRSAPSS | SHA384WithRSAPSS | SHA512WithRSAPSS
  | PureEd25519

definition SignatureAlgorithm :: "Payload \<Rightarrow> SignatureAlgorithm_t" where
  "SignatureAlgorithm payload =
     (if SignatureVersion payload = ''2'' then SHA256WithRSA else SHA1WithRSA)"


section \<open>The certificate host pattern\<close>

text \<open>
  \<^verbatim>\<open>regexp.MustCompile(`^sns\.[a-zA-Z0-9\-]{3,}\.amazonaws\.com(\.cn)?$`)\<close>.
  The syntax tree of a regular expression, with the operators this pattern is made of, named
  as in regexp/syntax: without the multi-line flag \<^verbatim>\<open>^\<close> is the beginning of the text and
  \<^verbatim>\<open>$\<close> its end; a character class is a list of inclusive ranges; \<open>OpRepeat n\<close> is
  \<^verbatim>\<open>{n,}\<close> (Min = n, no Max).
\<close>

datatype Regexp =
    OpBeginText
  | OpEndText
  | OpLiteral string
  | OpCharClass "(char \<times> char) list"
  | OpConcat "Regexp list"
  | OpRepeat nat Regexp
  | OpQuest Regexp
  | OpCapture Regexp

definition in_class :: "(char \<times> char) list \<Rightarrow> char \<Rightarrow> bool" where
  "in_class ranges c =
     list_ex (\<lambda>(lo, hi). (of_char lo :: nat) \<le> of_char c \<and> (of_char c :: nat) \<le> of_char hi) ranges"

text \<open>
  Matching works on positions in the text \<open>b\<close>: \<open>match_from re b i\<close> lists the positions
  at which a match of \<open>re\<close> that starts at position \<open>i\<close> can end. \<open>and_then\<close> runs one
  matcher after another, \<open>repeat_n\<close> runs a matcher a fixed number of times, and
  \<open>repeat_star\<close> any further number of times; every further round must consume input, so
  at most \<open>length b\<close> rounds are tried.
\<close>

definition and_then :: "(nat \<Rightarrow> nat list) \<Rightarrow> (nat \<Rightarrow> nat list) \<Rightarrow> nat \<Rightarrow> nat list" where
  "and_then f g i = concat (map g (f i))"

fun repeat_n :: "nat \<Rightarrow> (nat \<Rightarrow> nat list) \<Rightarrow> nat \<Rightarrow> nat list" where
  "repeat_n 0 f i = [i]"
| "repeat_n (Suc n) f i = concat (map (repeat_n n f) (f i))"

fun repeat_star :: "nat \<Rightarrow> (nat \<Rightarrow> nat list) \<Rightarrow> nat \<Rightarrow> nat list" where
  "repeat_star 0 f i = [i]"
| "repeat_star (Suc k) f i = concat (map (repeat_star k f) (filter (\<lambda>j. i < j) (f i))) @ [i]"

primrec match_from :: "Regexp \<Rightarrow> string \<Rightarrow> nat \<Rightarrow> nat list" where
  "match_from OpBeginText = (\<lambda>b i. if i = 0 then [i] else [])"
| "match_from OpEndText = (\<lambda>b i. if i = length b then [i] else [])"
| "match_from (OpLiteral l) =
     (\<lambda>b i. if take (length l) (drop i b) = l then [i + length l] else [])"
| "match_from (OpCharClass ranges) =
     (\<lambda>b i. if i < length b \<and> in_class ranges (b ! i) then [Suc i] else [])"
| "match_from (OpConcat subs) =
     (\<lambda>b. foldr and_then (map (\<lambda>sub. match_from sub b) subs) (\<lambda>i. [i]))"
| "match_from (OpRepeat n sub) =
     (\<lambda>b. and_then (repeat_n n (match_from sub b)) (repeat_star (length b) (match_from sub b)))"
| "match_from (OpQuest sub) = (\<lambda>b i. match_from sub b i @ [i])"
| "match_from (OpCapture sub) = match_from sub"

text \<open>\<^verbatim>\<open>(*Regexp).Match\<close>: whether the text contains a match, starting anywhere.\<close>

definition Match :: "Regexp \<Rightarrow> string \<Rightarrow> bool" where
  "Match re b = list_ex (\<lambda>i. match_from re b i \<noteq> []) [0..<Suc (length b)]"

definition hostPattern :: Regexp where
  "hostPattern = OpConcat
     [OpBeginText,
      OpLiteral ''sns.'',
      OpRepeat 3 (OpCharClass
        [(CHR ''a'', CHR ''z''), (CHR ''A'', CHR ''Z''), (CHR ''0'', CHR ''9''), (CHR ''-'', CHR ''-'')]),
      OpLiteral ''.amazonaws.com'',
      OpQuest (OpCapture (OpLiteral ''.cn'')),
      OpEndText]"

section \<open>Verification, subscription and the network\<close>

text \<open>
  A Go \<^verbatim>\<open>error\<close> value, by its message: the ones main.go makes with \<^verbatim>\<open>errors.New\<close> and
  \<^verbatim>\<open>fmt.Errorf\<close>, and the ones the standard library hands back.
\<close>

datatype error = Error string

text \<open>The two fields of \<^verbatim>\<open>url.URL\<close> that VerifyPayload reads.\<close>

record URL =
  Scheme :: string
  Host :: string

text \<open>
  \<^verbatim>\<open>http.Response\<close>: the status code, which main.go never reads, and the body, given by
  what reading it to its end yields.
\<close>

record Response =
  StatusCode :: int
  Body :: "error + string"

definition ReadAll :: "error + string \<Rightarrow> error + string" where
  "ReadAll body = body"

record ConfirmSubscriptionResponse =
  XMLName :: "string \<times> string"
  SubscriptionArn :: string
  RequestId :: string

record UnsubscribeResponse =
  XMLName :: "string \<times> string"
  RequestId :: string

text \<open>
  The standard library and the network, which main.go calls and does not define, are
  parameters: the decoders and parsers as functions, \<open>http_Get\<close> as the answer the network
  gives for a URL (a transport error or a response), the certificate as a type parameter.
  \<open>pem_Decode\<close> yields the \<^verbatim>\<open>Bytes\<close> of the first PEM block, if there is one;
  \<^verbatim>\<open>xml.Unmarshal\<close> fills the record it is given and may fail.
\<close>

record 'cert Env =
  base64_DecodeString :: "string \<Rightarrow> error + string"
  url_Parse :: "string \<Rightarrow> error + URL"
  http_Get :: "string \<Rightarrow> error + Response"
  pem_Decode :: "string \<Rightarrow> string option"
  x509_ParseCertificate :: "string \<Rightarrow> error + 'cert"
  CheckSignature :: "'cert \<Rightarrow> SignatureAlgorithm_t \<Rightarrow> string \<Rightarrow> string \<Rightarrow> error option"
  xml_Unmarshal_Confirm ::
    "string \<Rightarrow> ConfirmSubscriptionResponse \<Rightarrow> ConfirmSubscriptionResponse \<times> error option"
  xml_Unmarshal_Unsubscribe ::
    "string \<Rightarrow> UnsubscribeResponse \<Rightarrow> UnsubscribeResponse \<times> error option"

text \<open>
  The state of the world is the list of the URLs requested so far, oldest first;
  \<^verbatim>\<open>http.Get\<close> adds its URL to it, whatever the answer.
\<close>

type_synonym world = "string list"

definition Get :: "'cert Env \<Rightarrow> string \<Rightarrow> world \<Rightarrow> (error + Response) \<times> world" where
  "Get env url w = (http_Get env url, w @ [url])"

text \<open>
  VerifyPayload, statement by statement; \<open>None\<close> is the \<^verbatim>\<open>nil\<close> error. The deferred
  \<^verbatim>\<open>resp.Body.Close()\<close> has no part in the result.
\<close>

definition VerifyPayload :: "'cert Env \<Rightarrow> Payload \<Rightarrow> world \<Rightarrow> error option \<times> world" where
  "VerifyPayload env payload w =
     (case base64_DecodeString env (Signature payload) of
        Inl err \<Rightarrow> (Some err, w)
      | Inr payloadSignature \<Rightarrow>
     (case url_Parse env (SigningCertURL payload) of
        Inl err \<Rightarrow> (Some err, w)
      | Inr certURL \<Rightarrow>
        if Scheme certURL \<noteq> ''https''
        then (Some (Error ''url should be using https''), w)
        else if \<not> Match hostPattern (Host certURL)
        then (Some (Error ''certificate is located on an invalid domain''), w)
        else
     (case Get env (SigningCertURL payload) w of
        (Inl err, w') \<Rightarrow> (Some err, w')
      | (Inr resp, w') \<Rightarrow>
     (case ReadAll (Body resp) of
        Inl err \<Rightarrow> (Some err, w')
      | Inr body \<Rightarrow>
     (case pem_Decode env body of
        None \<Rightarrow> (Some (Error ''The decoded PEM file was empty!''), w')
      | Some decodedPem \<Rightarrow>
     (case x509_ParseCertificate env decodedPem of
        Inl err \<Rightarrow> (Some err, w')
      | Inr parsedCertificate \<Rightarrow>
          (CheckSignature env parsedCertificate
             (SignatureAlgorithm payload) (BuildSignature payload) payloadSignature, w')))))))"

text \<open>Subscribe and Unsubscribe; \<^verbatim>\<open>var response\<close> starts as the zero value of its type.\<close>

definition zero_ConfirmSubscriptionResponse :: ConfirmSubscriptionResponse where
  "zero_ConfirmSubscriptionResponse =
     \<lparr>ConfirmSubscriptionResponse.XMLName = ([], []), SubscriptionArn = [],
      ConfirmSubscriptionResponse.RequestId = []\<rparr>"

definition zero_UnsubscribeResponse :: UnsubscribeResponse where
  "zero_UnsubscribeResponse =
     \<lparr>UnsubscribeResponse.XMLName = ([], []), UnsubscribeResponse.RequestId = []\<rparr>"

definition Subscribe ::
  "'cert Env \<Rightarrow> Payload \<Rightarrow> world \<Rightarrow> (ConfirmSubscriptionResponse \<times> error option) \<times> world" where
  "Subscribe env payload w =
     (let response = zero_ConfirmSubscriptionResponse
      in if SubscribeURL payload = []
         then ((response, Some (Error ''Payload does not have a SubscribeURL!'')), w)
         else
     (case Get env (SubscribeURL payload) w of
        (Inl err, w') \<Rightarrow> ((response, Some err), w')
      | (Inr resp, w') \<Rightarrow>
     (case ReadAll (Body resp) of
        Inl err \<Rightarrow> ((response, Some err), w')
      | Inr body \<Rightarrow>
     (case xml_Unmarshal_Confirm env body response of
        (response', Some xmlErr) \<Rightarrow> ((response', Some xmlErr), w')
      | (response', None) \<Rightarrow> ((response', None), w')))))"

definition Unsubscribe ::
  "'cert Env \<Rightarrow> Payload \<Rightarrow> world \<Rightarrow> (UnsubscribeResponse \<times> error option) \<times> world" where
  "Unsubscribe env payload w =
     (let response = zero_UnsubscribeResponse
      in
     (case Get env (UnsubscribeURL payload) w of
        (Inl err, w') \<Rightarrow> ((response, Some err), w')
      | (Inr resp, w') \<Rightarrow>
     (case ReadAll (Body resp) of
        Inl err \<Rightarrow> ((response, Some err), w')
      | Inr body \<Rightarrow>
     (case xml_Unmarshal_Unsubscribe env body response of
        (response', Some xmlErr) \<Rightarrow> ((response', Some xmlErr), w')
      | (response', None) \<Rightarrow> ((response', None), w')))))"


section \<open>Notions used in the statements and proofs\<close>

text \<open>What one pass of the loop of BuildSignature appends for a key.\<close>

definition key_bytes :: "Payload \<Rightarrow> string \<Rightarrow> string" where
  "key_bytes payload key =
     (let field = FieldByName payload key; val = Value_String field
      in if IsValid field \<and> val \<noteq> [] then (key @ nl) @ (val @ nl) else [])"

text \<open>
  \<open>class_run ranges b i j\<close>: the positions from \<open>i\<close> up to \<open>j\<close> of the text all hold
  characters of the class. \<open>anchored_host\<close> is the shape of \<open>hostPattern\<close> with its
  literals, class and bound as parameters, and \<open>tail_ok\<close> says that the text from
  position \<open>j\<close> on is the middle literal, alone or followed by the optional one.
\<close>

definition class_run :: "(char \<times> char) list \<Rightarrow> string \<Rightarrow> nat \<Rightarrow> nat \<Rightarrow> bool" where
  "class_run ranges b i j =
     (i \<le> j \<and> j \<le> length b \<and> (\<forall>m. i \<le> m \<and> m < j \<longrightarrow> in_class ranges (b ! m)))"

definition anchored_host ::
  "string \<Rightarrow> (char \<times> char) list \<Rightarrow> nat \<Rightarrow> string \<Rightarrow> string \<Rightarrow> Regexp" where
  "anchored_host pre ranges n mid opt =
     OpConcat [OpBeginText, OpLiteral pre, OpRepeat n (OpCharClass ranges), OpLiteral mid,
               OpQuest (OpCapture (OpLiteral opt)), OpEndText]"

definition tail_ok :: "string \<Rightarrow> string \<Rightarrow> string \<Rightarrow> nat \<Rightarrow> bool" where
  "tail_ok mid opt b j =
     (take (length mid) (drop j b) = mid \<and>
       (j + length mid = length b \<or>
        take (length opt) (drop (j + length mid) b) = opt \<and>
        j + length mid + length opt = length b))"

text \<open>The same environment, with the status code of every response replaced.\<close>

definition with_status :: "int \<Rightarrow> 'cert Env \<Rightarrow> 'cert Env" where
  "with_status status env =
     env\<lparr>http_Get := \<lambda>url. map_sum id (\<lambda>resp. resp\<lparr>StatusCode := status\<rparr>) (http_Get env url)\<rparr>"

subsection \<open>A concrete payload and environment\<close>

text \<open>
  A notification whose message has two lines, and a small environment given by tables:
  one signature that decodes, four URLs that parse the way \<^verbatim>\<open>url.Parse\<close> parses them, a
  server that answers every request with the given status and the same PEM file, and a
  certificate that accepts one signature under SHA1WithRSA.
\<close>

definition example_payload :: Payload where
  "example_payload =
     \<lparr>Message = ''hi'' @ nl @ ''there'', MessageId = ''m-1'', Signature = ''c2ln'',
      SignatureVersion = ''1'',
      SigningCertURL = ''https://sns.us-east-1.amazonaws.com/cert.pem'',
      SubscribeURL = [], Subject = [], Timestamp = ''2020-01-01T00:00:00.000Z'', Token = [],
      TopicArn = ''arn:aws:sns:us-east-1:1:t'', Type = ''Notification'',
      UnsubscribeURL = []\<rparr>"

definition example_env :: "int \<Rightarrow> string Env" where
  "example_env status =
     \<lparr>base64_DecodeString =
        (\<lambda>s. if s = ''c2ln'' then Inr ''sig''
             else Inl (Error ''illegal base64 data at input byte 0'')),
      url_Parse =
        (\<lambda>s. if s = ''https://sns.us-east-1.amazonaws.com/cert.pem''
             then Inr \<lparr>Scheme = ''https'', Host = ''sns.us-east-1.amazonaws.com''\<rparr>
             else if s = ''http://sns.us-east-1.amazonaws.com/cert.pem''
             then Inr \<lparr>Scheme = ''http'', Host = ''sns.us-east-1.amazonaws.com''\<rparr>
             else if s = ''https://evil.com/sns.us-east-1.amazonaws.com/cert.pem''
             then Inr \<lparr>Scheme = ''https'', Host = ''evil.com''\<rparr>
             else if s = ''https://sns.ab.amazonaws.com/cert.pem''
             then Inr \<lparr>Scheme = ''https'', Host = ''sns.ab.amazonaws.com''\<rparr>
             else Inl (Error ''missing protocol scheme'')),
      http_Get = (\<lambda>url. Inr \<lparr>StatusCode = status, Body = Inr ''-----BEGIN CERTIFICATE-----''\<rparr>),
      pem_Decode = (\<lambda>body. if body = ''-----BEGIN CERTIFICATE-----'' then Some ''DER'' else None),
      x509_ParseCertificate =
        (\<lambda>der. if der = ''DER'' then Inr ''cert'' else Inl (Error ''x509: malformed certificate'')),
      CheckSignature =
        (\<lambda>cert algo signed signature.
           if cert = ''cert'' \<and> algo = SHA1WithRSA \<and> signature = ''sig'' then None
           else Some (Error ''crypto/rsa: verification error'')),
      xml_Unmarshal_Confirm = (\<lambda>body response. (response, Some (Error ''EOF''))),
      xml_Unmarshal_Unsubscribe = (\<lambda>body response. (response, Some (Error ''EOF'')))\<rparr>"

section \<open>The canonical signer string\<close>

lemma BuildSignature_loop_concat:
  "BuildSignature_loop payload keys buf = buf @ concat (map (key_bytes payload) keys)"
  by (induction keys arbitrary: buf) (simp_all add: key_bytes_def Let_def)

lemma BuildSignature_concat:
  "BuildSignature payload = concat (map (key_bytes payload) signableKeys)"
  by (simp add: BuildSignature_def BuildSignature_loop_concat)

lemma key_bytes_signable:
  "map (key_bytes payload) signableKeys =
     map (\<lambda>(name, val). if val = [] then [] else name @ nl @ val @ nl)
       [(''Message'', Message payload), (''MessageId'', MessageId payload),
        (''Subject'', Subject payload), (''SubscribeURL'', SubscribeURL payload),
        (''Timestamp'', Timestamp payload), (''Token'', Token payload),
        (''TopicArn'', TopicArn payload), (''Type'', Type payload)]"
  by (simp add: signableKeys_def key_bytes_def FieldByName_def IsValid_def Value_String_def Let_def)

text \<open>
  C1. For every Payload, BuildSignature returns exactly the concatenation, over the eight
  signable fields in the order Message, MessageId, Subject, SubscribeURL, Timestamp, Token,
  TopicArn, Type, of the field name, a newline, the field value and a newline for each field
  whose value is not empty; a field whose value is empty contributes nothing.
\<close>

theorem BuildSignature_canonical:
  "BuildSignature payload =
     concat (map (\<lambda>(name, val). if val = [] then [] else name @ nl @ val @ nl)
       [(''Message'', Message payload), (''MessageId'', MessageId payload),
        (''Subject'', Subject payload), (''SubscribeURL'', SubscribeURL payload),
        (''Timestamp'', Timestamp payload), (''Token'', Token payload),
        (''TopicArn'', TopicArn payload), (''Type'', Type payload)])"
  by (simp only: BuildSignature_concat key_bytes_signable)

theorem BuildSignature_canonical_witness:
  "BuildSignature example_payload =
     ''Message'' @ nl @ ''hi'' @ nl @ ''there'' @ nl @
     ''MessageId'' @ nl @ ''m-1'' @ nl @
     ''Timestamp'' @ nl @ ''2020-01-01T00:00:00.000Z'' @ nl @
     ''TopicArn'' @ nl @ ''arn:aws:sns:us-east-1:1:t'' @ nl @
     ''Type'' @ nl @ ''Notification'' @ nl"
  using BuildSignature_canonical [of example_payload]
  by (simp add: example_payload_def nl_def)

text \<open>
  C8. A signable field whose value contains newline characters is written verbatim: the
  output is what the loop writes for the keys before it, then the key, a newline, the value
  unchanged, a newline, then what the loop writes for the keys after it.
\<close>

theorem BuildSignature_newline_verbatim:
  assumes "i < length signableKeys"
    and "FieldByName payload (signableKeys ! i) = Some val"
    and "CHR 0x0A \<in> set val"
  shows "BuildSignature payload =
           BuildSignature_loop payload (take i signableKeys) [] @
           (signableKeys ! i) @ nl @ val @ nl @
           BuildSignature_loop payload (drop (Suc i) signableKeys) []"
proof -
  have "val \<noteq> []" using assms(3) by auto
  then have kb: "key_bytes payload (signableKeys ! i) = (signableKeys ! i) @ nl @ val @ nl"
    using assms(2) by (simp add: key_bytes_def IsValid_def Value_String_def)
  have "signableKeys = take i signableKeys @ (signableKeys ! i) # drop (Suc i) signableKeys"
    using assms(1) by (rule id_take_nth_drop)
  then have "concat (map (key_bytes payload) signableKeys) =
             concat (map (key_bytes payload) (take i signableKeys)) @
             key_bytes payload (signableKeys ! i) @
             concat (map (key_bytes payload) (drop (Suc i) signableKeys))"
    by (metis concat.simps(2) concat_append list.simps(9) map_append)
  then show ?thesis by (simp add: BuildSignature_concat BuildSignature_loop_concat kb)
qed

theorem BuildSignature_newline_verbatim_witness:
  "BuildSignature example_payload =
     ''Message'' @ nl @ (''hi'' @ nl @ ''there'') @ nl @
     BuildSignature_loop example_payload
       [''MessageId'', ''Subject'', ''SubscribeURL'', ''Timestamp'', ''Token'', ''TopicArn'', ''Type''] []"
proof -
  have "0 < length signableKeys" by (simp add: signableKeys_def)
  moreover have "FieldByName example_payload (signableKeys ! 0) = Some (''hi'' @ nl @ ''there'')"
    by (simp add: signableKeys_def FieldByName_def example_payload_def)
  moreover have "CHR 0x0A \<in> set (''hi'' @ nl @ ''there'')" by (simp add: nl_def)
  ultimately show ?thesis
    using BuildSignature_newline_verbatim [of 0 example_payload "''hi'' @ nl @ ''there''"]
    by (simp add: signableKeys_def)
qed

text \<open>
  C9. BuildSignature depends on the eight signable fields only: two Payloads that agree on
  Message, MessageId, Subject, SubscribeURL, Timestamp, Token, TopicArn and Type have the same
  output, whatever their Signature, SignatureVersion, SigningCertURL and UnsubscribeURL.
\<close>

theorem BuildSignature_signable_only:
  "Message p = Message q \<Longrightarrow> MessageId p = MessageId q \<Longrightarrow> Subject p = Subject q \<Longrightarrow>
   SubscribeURL p = SubscribeURL q \<Longrightarrow> Timestamp p = Timestamp q \<Longrightarrow> Token p = Token q \<Longrightarrow>
   TopicArn p = TopicArn q \<Longrightarrow> Type p = Type q \<Longrightarrow>
   BuildSignature p = BuildSignature q"
  by (simp add: BuildSignature_concat key_bytes_signable)

theorem BuildSignature_signable_only_witness:
  "BuildSignature
     (example_payload\<lparr>Signature := ''AAAA'', SignatureVersion := ''2'',
        SigningCertURL := ''https://evil.com/cert.pem'', UnsubscribeURL := ''https://evil.com/u''\<rparr>) =
   BuildSignature example_payload"
  using BuildSignature_signable_only
    [of "example_payload\<lparr>Signature := ''AAAA'', SignatureVersion := ''2'',
        SigningCertURL := ''https://evil.com/cert.pem'', UnsubscribeURL := ''https://evil.com/u''\<rparr>"
        example_payload]
  by simp

section \<open>The signature algorithm\<close>

text \<open>
  C4. SignatureAlgorithm returns SHA256WithRSA if and only if SignatureVersion is the string
  "2", and SHA1WithRSA for every other value, among them "1" and the empty string.
\<close>

theorem SignatureAlgorithm_version:
  "(SignatureAlgorithm payload = SHA256WithRSA) = (SignatureVersion payload = ''2'') \<and>
   (SignatureVersion payload \<noteq> ''2'' \<longrightarrow> SignatureAlgorithm payload = SHA1WithRSA) \<and>
   (SignatureVersion payload = ''1'' \<longrightarrow> SignatureAlgorithm payload = SHA1WithRSA) \<and>
   (SignatureVersion payload = [] \<longrightarrow> SignatureAlgorithm payload = SHA1WithRSA)"
  by (simp add: SignatureAlgorithm_def)

theorem SignatureAlgorithm_version_witness:
  "SignatureAlgorithm example_payload = SHA1WithRSA \<and>
   SignatureAlgorithm (example_payload\<lparr>SignatureVersion := []\<rparr>) = SHA1WithRSA \<and>
   SignatureAlgorithm (example_payload\<lparr>SignatureVersion := ''3''\<rparr>) = SHA1WithRSA \<and>
   SignatureAlgorithm (example_payload\<lparr>SignatureVersion := ''2''\<rparr>) = SHA256WithRSA"
  using SignatureAlgorithm_version [of example_payload]
    SignatureAlgorithm_version [of "example_payload\<lparr>SignatureVersion := []\<rparr>"]
    SignatureAlgorithm_version [of "example_payload\<lparr>SignatureVersion := ''3''\<rparr>"]
    SignatureAlgorithm_version [of "example_payload\<lparr>SignatureVersion := ''2''\<rparr>"]
  by (simp add: example_payload_def)

section \<open>The host pattern\<close>

lemma class_run_refl: "class_run ranges b i i = (i \<le> length b)"
  by (auto simp: class_run_def)

lemma class_run_Suc:
  "class_run ranges b i j \<Longrightarrow> i \<noteq> j \<Longrightarrow>
     i < length b \<and> in_class ranges (b ! i) \<and> class_run ranges b (Suc i) j"
  unfolding class_run_def by auto

lemma class_run_Suc_rev:
  "i < length b \<Longrightarrow> in_class ranges (b ! i) \<Longrightarrow> class_run ranges b (Suc i) j \<Longrightarrow>
     class_run ranges b i j"
  unfolding class_run_def
proof (intro conjI allI impI)
  fix m
  assume a: "i < length b" "in_class ranges (b ! i)"
    "Suc i \<le> j \<and> j \<le> length b \<and> (\<forall>m. Suc i \<le> m \<and> m < j \<longrightarrow> in_class ranges (b ! m))"
    "i \<le> m \<and> m < j"
  show "in_class ranges (b ! m)"
  proof (cases "m = i")
    case True then show ?thesis using a by simp
  next
    case False then have "Suc i \<le> m" using a by simp
    then show ?thesis using a by blast
  qed
qed auto



lemma set_and_then: "set (and_then f g i) = (\<Union>j\<in>set (f i). set (g j))"
  by (simp add: and_then_def)

lemma set_repeat_n_class:
  assumes step: "\<And>i. f i = (if i < length b \<and> in_class ranges (b ! i) then [Suc i] else [])"
  shows "i \<le> length b \<Longrightarrow>
         set (repeat_n n f i) = (if class_run ranges b i (i + n) then {i + n} else {})"
proof (induction n arbitrary: i)
  case 0
  then show ?case by (simp add: class_run_refl)
next
  case (Suc n)
  show ?case
  proof (cases "i < length b \<and> in_class ranges (b ! i)")
    case True
    then have fi: "f i = [Suc i]" using step [of i] by simp
    have "class_run ranges b i (i + Suc n) = class_run ranges b (Suc i) (Suc i + n)"
      using True class_run_Suc [of ranges b i "i + Suc n"]
        class_run_Suc_rev [of i b ranges "i + Suc n"] by auto
    moreover have "Suc i \<le> length b" using True by simp
    ultimately show ?thesis using Suc.IH [of "Suc i"] by (simp add: fi)
  next
    case False
    then have fi: "f i = []" using step [of i] by simp
    have "\<not> class_run ranges b i (i + Suc n)"
      using False class_run_Suc [of ranges b i "i + Suc n"] by auto
    then show ?thesis by (simp add: fi)
  qed
qed

lemma set_repeat_star_class:
  assumes step: "\<And>i. f i = (if i < length b \<and> in_class ranges (b ! i) then [Suc i] else [])"
  shows "i \<le> length b \<Longrightarrow>
         set (repeat_star k f i) = {j. class_run ranges b i j \<and> j \<le> i + k}"
proof (induction k arbitrary: i)
  case 0
  then show ?case by (auto simp: class_run_def)
next
  case (Suc k)
  show ?case
  proof (cases "i < length b \<and> in_class ranges (b ! i)")
    case True
    then have fi: "f i = [Suc i]" using step [of i] by simp
    have le: "Suc i \<le> length b" using True by simp
    have "{j. class_run ranges b i j \<and> j \<le> i + Suc k} =
          insert i {j. class_run ranges b (Suc i) j \<and> j \<le> Suc i + k}"
    proof (intro set_eqI iffI)
      fix j assume "j \<in> {j. class_run ranges b i j \<and> j \<le> i + Suc k}"
      then show "j \<in> insert i {j. class_run ranges b (Suc i) j \<and> j \<le> Suc i + k}"
        using class_run_Suc [of ranges b i j] by auto
    next
      fix j assume "j \<in> insert i {j. class_run ranges b (Suc i) j \<and> j \<le> Suc i + k}"
      then show "j \<in> {j. class_run ranges b i j \<and> j \<le> i + Suc k}"
        using class_run_Suc_rev [of i b ranges j] True Suc.prems
        by (auto simp: class_run_refl)
    qed
    then show ?thesis using Suc.IH [OF le] by (simp add: fi)
  next
    case False
    then have fi: "f i = []" using step [of i] by simp
    have "{j. class_run ranges b i j \<and> j \<le> i + Suc k} = {i}"
    proof (intro set_eqI iffI)
      fix j assume "j \<in> {j. class_run ranges b i j \<and> j \<le> i + Suc k}"
      then show "j \<in> {i}" using class_run_Suc [of ranges b i j] False by auto
    next
      fix j assume "j \<in> {i}"
      then show "j \<in> {j. class_run ranges b i j \<and> j \<le> i + Suc k}"
        using Suc.prems by (simp add: class_run_refl)
    qed
    then show ?thesis by (simp add: fi)
  qed
qed

lemma class_run_trans:
  "(class_run ranges b i (i + n) \<and> class_run ranges b (i + n) j) =
   (class_run ranges b i j \<and> i + n \<le> j)"
  unfolding class_run_def
  by (auto simp: not_less) (metis le_less_linear)+

lemma set_match_repeat_class:
  assumes "i \<le> length b"
  shows "set (match_from (OpRepeat n (OpCharClass ranges)) b i) =
           {j. class_run ranges b i j \<and> i + n \<le> j}"
proof -
  define f where "f = match_from (OpCharClass ranges) b"
  have step: "\<And>i. f i = (if i < length b \<and> in_class ranges (b ! i) then [Suc i] else [])"
    by (simp add: f_def)
  have unfold: "set (match_from (OpRepeat n (OpCharClass ranges)) b i) =
      (\<Union>j\<in>set (repeat_n n f i). set (repeat_star (length b) f j))"
    by (simp only: match_from.simps(6) set_and_then f_def)
  show ?thesis
  proof (cases "class_run ranges b i (i + n)")
    case True
    then have le: "i + n \<le> length b" by (simp add: class_run_def)
    have "{j. class_run ranges b (i + n) j \<and> j \<le> i + n + length b} =
          {j. class_run ranges b i j \<and> i + n \<le> j}"
      using class_run_trans [of ranges b i n] True by (auto simp: class_run_def)
    then show ?thesis
      unfolding unfold
      using True set_repeat_star_class [OF step le, of "length b"] set_repeat_n_class [OF step assms, of n]
      by simp
  next
    case False
    then have "{j. class_run ranges b i j \<and> i + n \<le> j} = {}"
      using class_run_trans [of ranges b i n] by blast
    then show ?thesis
      unfolding unfold using False set_repeat_n_class [OF step assms, of n] by simp
  qed
qed


lemma Match_iff: "Match re b = (\<exists>i\<le>length b. match_from re b i \<noteq> [])"
  unfolding Match_def list_ex_iff
proof
  assume "\<exists>i\<in>set [0..<Suc (length b)]. match_from re b i \<noteq> []"
  then obtain i where "i \<in> set [0..<Suc (length b)]" "match_from re b i \<noteq> []" by blast
  then have "i \<le> length b" "match_from re b i \<noteq> []" by (simp_all del: upt_Suc)
  then show "\<exists>i\<le>length b. match_from re b i \<noteq> []" by blast
next
  assume "\<exists>i\<le>length b. match_from re b i \<noteq> []"
  then obtain i where "i \<le> length b" "match_from re b i \<noteq> []" by blast
  then have "i \<in> set [0..<Suc (length b)]" by (simp del: upt_Suc)
  then show "\<exists>i\<in>set [0..<Suc (length b)]. match_from re b i \<noteq> []"
    using \<open>match_from re b i \<noteq> []\<close> by blast
qed

lemma set_match_tail:
  "set (foldr and_then
         [match_from (OpLiteral mid) b, match_from (OpQuest (OpCapture (OpLiteral opt))) b, match_from OpEndText b]
         (\<lambda>i. [i]) j) = (if tail_ok mid opt b j then {length b} else {})"
  by (auto simp: set_and_then tail_ok_def)

lemma set_match_anchored_host:
  "set (match_from (anchored_host pre ranges n mid opt) b i) =
     (if i = 0 \<and> take (length pre) b = pre \<and>
         (\<exists>j. class_run ranges b (length pre) j \<and> length pre + n \<le> j \<and> tail_ok mid opt b j)
      then {length b} else {})"
proof (cases "i = 0 \<and> take (length pre) b = pre")
  case True
  then have le: "length pre \<le> length b"
    by (metis length_take min.cobounded1)
  have "set (match_from (anchored_host pre ranges n mid opt) b i) =
        (\<Union>j\<in>set (match_from (OpRepeat n (OpCharClass ranges)) b (length pre)).
            set (foldr and_then
              [match_from (OpLiteral mid) b, match_from (OpQuest (OpCapture (OpLiteral opt))) b, match_from OpEndText b]
              (\<lambda>i. [i]) j))"
    using True by (simp add: anchored_host_def set_and_then del: match_from.simps(6))
  then show ?thesis using True
    by (auto simp only: set_match_tail set_match_repeat_class [OF le] split: if_splits)
next
  case False
  then have "match_from (anchored_host pre ranges n mid opt) b i = []"
    by (auto simp: anchored_host_def and_then_def)
  then show ?thesis using False by auto
qed


lemma Match_anchored_host_pos:
  "Match (anchored_host pre ranges n mid opt) b =
     (take (length pre) b = pre \<and>
      (\<exists>j. class_run ranges b (length pre) j \<and> length pre + n \<le> j \<and> tail_ok mid opt b j))"
proof -
  have "Match (anchored_host pre ranges n mid opt) b =
        (\<exists>i\<le>length b. set (match_from (anchored_host pre ranges n mid opt) b i) \<noteq> {})"
    by (simp only: Match_iff set_empty)
  then show ?thesis by (simp only: set_match_anchored_host) auto
qed

lemma tail_ok_append:
  "tail_ok mid opt b j = (j \<le> length b \<and> (drop j b = mid \<or> drop j b = mid @ opt))"
proof
  assume t: "tail_ok mid opt b j"
  then have m: "take (length mid) (drop j b) = mid" by (simp add: tail_ok_def)
  have split: "drop j b = mid @ drop (j + length mid) b"
    using append_take_drop_id [of "length mid" "drop j b"] m by (simp add: add.commute)
  have "length mid \<le> length (drop j b)" using m by (metis length_take min.cobounded1)
  show "j \<le> length b \<and> (drop j b = mid \<or> drop j b = mid @ opt)"
  proof (cases "j + length mid = length b")
    case True
    then show ?thesis using split by simp
  next
    case False
    then have o: "take (length opt) (drop (j + length mid) b) = opt"
      and len: "j + length mid + length opt = length b"
      using t by (auto simp: tail_ok_def)
    have "drop (j + length mid) b = opt @ drop (j + length mid + length opt) b"
      using append_take_drop_id [of "length opt" "drop (j + length mid) b"] o
      by (simp add: add.commute)
    then show ?thesis using split len by simp
  qed
next
  assume a: "j \<le> length b \<and> (drop j b = mid \<or> drop j b = mid @ opt)"
  then have le: "j \<le> length b" by blast
  have ld: "length (drop j b) = length b - j" by (rule length_drop)
  from a show "tail_ok mid opt b j"
  proof (elim conjE disjE)
    assume d: "drop j b = mid"
    then have "length mid = length b - j" using ld by simp
    then have "j + length mid = length b" using le by arith
    then show ?thesis using d by (simp add: tail_ok_def)
  next
    assume d: "drop j b = mid @ opt"
    then have "length mid + length opt = length b - j" using ld by simp
    then have l: "j + length mid + length opt = length b" using le by arith
    have "drop (j + length mid) b = drop (length mid) (drop j b)" by (simp add: add.commute)
    then have "drop (j + length mid) b = opt" using d by simp
    then show ?thesis using l d by (simp add: tail_ok_def)
  qed
qed


lemma class_run_take_drop:
  "class_run ranges b i j =
     (i \<le> j \<and> j \<le> length b \<and> (\<forall>c\<in>set (take (j - i) (drop i b)). in_class ranges c))"
proof (cases "i \<le> j \<and> j \<le> length b")
  case False
  then show ?thesis by (auto simp: class_run_def)
next
  case True
  then have "j - i \<le> length b - i" by arith
  then have len: "length (take (j - i) (drop i b)) = j - i" by simp
  have nth: "\<And>m. m < j - i \<Longrightarrow> take (j - i) (drop i b) ! m = b ! (i + m)"
    using True by simp
  have "(\<forall>m. i \<le> m \<and> m < j \<longrightarrow> in_class ranges (b ! m)) =
        (\<forall>c\<in>set (take (j - i) (drop i b)). in_class ranges c)"
  proof
    assume a: "\<forall>m. i \<le> m \<and> m < j \<longrightarrow> in_class ranges (b ! m)"
    show "\<forall>c\<in>set (take (j - i) (drop i b)). in_class ranges c"
    proof
      fix c assume "c \<in> set (take (j - i) (drop i b))"
      then obtain m where m: "m < j - i" "c = take (j - i) (drop i b) ! m"
        using len by (metis in_set_conv_nth)
      then have "c = b ! (i + m)" using nth by simp
      moreover have "i \<le> i + m \<and> i + m < j" using m by arith
      ultimately show "in_class ranges c" using a by blast
    qed
  next
    assume a: "\<forall>c\<in>set (take (j - i) (drop i b)). in_class ranges c"
    show "\<forall>m. i \<le> m \<and> m < j \<longrightarrow> in_class ranges (b ! m)"
    proof (intro allI impI)
      fix m assume m: "i \<le> m \<and> m < j"
      then have lt: "m - i < j - i" by arith
      then have "take (j - i) (drop i b) ! (m - i) \<in> set (take (j - i) (drop i b))"
        using len by (metis nth_mem)
      moreover have "take (j - i) (drop i b) ! (m - i) = b ! m" using nth [OF lt] m by simp
      ultimately show "in_class ranges (b ! m)" using a by auto
    qed
  qed
  then show ?thesis using True by (simp add: class_run_def)
qed

lemma Match_anchored_host:
  "Match (anchored_host pre ranges n mid opt) b =
     (\<exists>r. (b = pre @ r @ mid \<or> b = pre @ r @ mid @ opt) \<and> n \<le> length r \<and>
          (\<forall>c\<in>set r. in_class ranges c))"
proof
  assume "Match (anchored_host pre ranges n mid opt) b"
  then obtain j where pre: "take (length pre) b = pre"
    and run: "class_run ranges b (length pre) j" and n: "length pre + n \<le> j"
    and tail: "tail_ok mid opt b j"
    by (auto simp: Match_anchored_host_pos)
  define r where "r = take (j - length pre) (drop (length pre) b)"
  have le: "length pre \<le> j" "j \<le> length b" and cls: "\<forall>c\<in>set r. in_class ranges c"
    using run by (simp_all add: class_run_take_drop r_def)
  have "drop (length pre) b = r @ drop (j - length pre) (drop (length pre) b)"
    unfolding r_def by (rule append_take_drop_id [symmetric])
  then have "drop (length pre) b = r @ drop j b" using le by simp
  then have b: "b = pre @ r @ drop j b"
    using append_take_drop_id [of "length pre" b] pre by simp
  have "n \<le> length r" using le n by (simp add: r_def)
  moreover have "b = pre @ r @ mid \<or> b = pre @ r @ mid @ opt"
    using tail b by (auto simp: tail_ok_append)
  ultimately show "\<exists>r. (b = pre @ r @ mid \<or> b = pre @ r @ mid @ opt) \<and> n \<le> length r \<and>
          (\<forall>c\<in>set r. in_class ranges c)" using cls by blast
next
  assume "\<exists>r. (b = pre @ r @ mid \<or> b = pre @ r @ mid @ opt) \<and> n \<le> length r \<and>
          (\<forall>c\<in>set r. in_class ranges c)"
  then obtain r sfx where b: "b = pre @ r @ sfx" and sfx: "sfx = mid \<or> sfx = mid @ opt"
    and n: "n \<le> length r" and cls: "\<forall>c\<in>set r. in_class ranges c" by blast
  have d: "drop (length pre + length r) b = sfx" by (simp add: b)
  have "class_run ranges b (length pre) (length pre + length r)"
    using cls by (simp add: class_run_take_drop b)
  moreover have "tail_ok mid opt b (length pre + length r)"
    using sfx d by (simp add: tail_ok_append b)
  moreover have "take (length pre) b = pre" by (simp add: b)
  ultimately show "Match (anchored_host pre ranges n mid opt) b"
    using n unfolding Match_anchored_host_pos by (intro conjI exI [of _ "length pre + length r"]) simp_all
qed


lemma hostPattern_anchored_host:
  "hostPattern =
     anchored_host ''sns.''
       [(CHR ''a'', CHR ''z''), (CHR ''A'', CHR ''Z''), (CHR ''0'', CHR ''9''), (CHR ''-'', CHR ''-'')]
       3 ''.amazonaws.com'' ''.cn''"
  by (simp add: hostPattern_def anchored_host_def)

lemma host_class_chars:
  "\<forall>c. in_class
         [(CHR ''a'', CHR ''z''), (CHR ''A'', CHR ''Z''), (CHR ''0'', CHR ''9''), (CHR ''-'', CHR ''-'')] c =
       (c \<in> set ''abcdefghijklmnopqrstuvwxyzABCDEFGHIJKLMNOPQRSTUVWXYZ0123456789-'')"
  by code_simp

lemma Match_hostPattern:
  "Match hostPattern host =
     (\<exists>region.
        (host = ''sns.'' @ region @ ''.amazonaws.com'' \<or>
         host = ''sns.'' @ region @ ''.amazonaws.com'' @ ''.cn'') \<and>
        3 \<le> length region \<and>
        (\<forall>c\<in>set region.
           c \<in> set ''abcdefghijklmnopqrstuvwxyzABCDEFGHIJKLMNOPQRSTUVWXYZ0123456789-''))"
  by (simp only: hostPattern_anchored_host Match_anchored_host host_class_chars)

lemma com_not_cn: "r @ ''.amazonaws.com'' \<noteq> r' @ ''.amazonaws.com'' @ ''.cn''"
proof
  assume "r @ ''.amazonaws.com'' = r' @ ''.amazonaws.com'' @ ''.cn''"
  then have "last (r @ ''.amazonaws.com'') = last (r' @ ''.amazonaws.com'' @ ''.cn'')" by simp
  then show False by simp
qed

lemma Match_hostPattern_short:
  assumes "length region < 3"
  shows "\<not> Match hostPattern (''sns.'' @ region @ ''.amazonaws.com'')"
    and "\<not> Match hostPattern (''sns.'' @ region @ ''.amazonaws.com'' @ ''.cn'')"
proof -
  show "\<not> Match hostPattern (''sns.'' @ region @ ''.amazonaws.com'')"
  proof
    assume "Match hostPattern (''sns.'' @ region @ ''.amazonaws.com'')"
    then obtain r where r: "''sns.'' @ region @ ''.amazonaws.com'' = ''sns.'' @ r @ ''.amazonaws.com'' \<or>
        ''sns.'' @ region @ ''.amazonaws.com'' = ''sns.'' @ r @ ''.amazonaws.com'' @ ''.cn''"
      and "3 \<le> length r" unfolding Match_hostPattern by blast
    then have "region = r" using com_not_cn [of region r] by auto
    then show False using assms \<open>3 \<le> length r\<close> by simp
  qed
  show "\<not> Match hostPattern (''sns.'' @ region @ ''.amazonaws.com'' @ ''.cn'')"
  proof
    assume "Match hostPattern (''sns.'' @ region @ ''.amazonaws.com'' @ ''.cn'')"
    then obtain r where r: "''sns.'' @ region @ ''.amazonaws.com'' @ ''.cn'' = ''sns.'' @ r @ ''.amazonaws.com'' \<or>
        ''sns.'' @ region @ ''.amazonaws.com'' @ ''.cn'' = ''sns.'' @ r @ ''.amazonaws.com'' @ ''.cn''"
      and "3 \<le> length r" unfolding Match_hostPattern by blast
    then have "region = r" using com_not_cn [of r region] by auto
    then show False using assms \<open>3 \<le> length r\<close> by simp
  qed
qed

text \<open>
  C3. The host check accepts exactly the hosts made of "sns.", then three or more characters
  from a-z, A-Z, 0-9 and the hyphen, then ".amazonaws.com", then ".cn" or nothing, with
  nothing before or after. The hosts sns.us-east-1.amazonaws.com and
  sns.cn-north-1.amazonaws.com.cn are accepted, a region of fewer than three characters is
  rejected, and a region of exactly three characters of the class is accepted.
\<close>

theorem hostPattern_accepts_exactly:
  "Match hostPattern host =
     (\<exists>region.
        (host = ''sns.'' @ region @ ''.amazonaws.com'' \<or>
         host = ''sns.'' @ region @ ''.amazonaws.com'' @ ''.cn'') \<and>
        3 \<le> length region \<and>
        (\<forall>c\<in>set region.
           c \<in> set ''abcdefghijklmnopqrstuvwxyzABCDEFGHIJKLMNOPQRSTUVWXYZ0123456789-'')) \<and>
   Match hostPattern ''sns.us-east-1.amazonaws.com'' \<and>
   Match hostPattern ''sns.cn-north-1.amazonaws.com.cn'' \<and>
   (length short < 3 \<longrightarrow>
      \<not> Match hostPattern (''sns.'' @ short @ ''.amazonaws.com'') \<and>
      \<not> Match hostPattern (''sns.'' @ short @ ''.amazonaws.com'' @ ''.cn'')) \<and>
   (length three = 3 \<and>
    (\<forall>c\<in>set three.
       c \<in> set ''abcdefghijklmnopqrstuvwxyzABCDEFGHIJKLMNOPQRSTUVWXYZ0123456789-'') \<longrightarrow>
      Match hostPattern (''sns.'' @ three @ ''.amazonaws.com'') \<and>
      Match hostPattern (''sns.'' @ three @ ''.amazonaws.com'' @ ''.cn''))"
proof (intro conjI impI)
  show "Match hostPattern host =
     (\<exists>region.
        (host = ''sns.'' @ region @ ''.amazonaws.com'' \<or>
         host = ''sns.'' @ region @ ''.amazonaws.com'' @ ''.cn'') \<and>
        3 \<le> length region \<and>
        (\<forall>c\<in>set region.
           c \<in> set ''abcdefghijklmnopqrstuvwxyzABCDEFGHIJKLMNOPQRSTUVWXYZ0123456789-''))"
    by (rule Match_hostPattern)
  show "Match hostPattern ''sns.us-east-1.amazonaws.com''" by code_simp
  show "Match hostPattern ''sns.cn-north-1.amazonaws.com.cn''" by code_simp
next
  assume "length short < 3"
  then show "\<not> Match hostPattern (''sns.'' @ short @ ''.amazonaws.com'')"
    and "\<not> Match hostPattern (''sns.'' @ short @ ''.amazonaws.com'' @ ''.cn'')"
    by (rule Match_hostPattern_short)+
next
  assume a: "length three = 3 \<and>
    (\<forall>c\<in>set three.
       c \<in> set ''abcdefghijklmnopqrstuvwxyzABCDEFGHIJKLMNOPQRSTUVWXYZ0123456789-'')"
  then have "3 \<le> length three" by simp
  with a show "Match hostPattern (''sns.'' @ three @ ''.amazonaws.com'')"
    and "Match hostPattern (''sns.'' @ three @ ''.amazonaws.com'' @ ''.cn'')"
    unfolding Match_hostPattern by blast+
qed

theorem hostPattern_accepts_exactly_witness:
  "Match hostPattern ''sns.us-east-1.amazonaws.com'' \<and>
   Match hostPattern ''sns.abc.amazonaws.com'' \<and>
   Match hostPattern ''sns.abc.amazonaws.com.cn'' \<and>
   \<not> Match hostPattern ''sns.ab.amazonaws.com'' \<and>
   \<not> Match hostPattern ''sns.ab.amazonaws.com.cn'' \<and>
   \<not> Match hostPattern ''evil.com''"
  using hostPattern_accepts_exactly [of "''evil.com''" "''ab''" "''abc''"]
  by simp

section \<open>VerifyPayload\<close>

lemma Match_example_host: "Match hostPattern ''sns.us-east-1.amazonaws.com''"
  by code_simp

lemma not_Match_evil_host: "\<not> Match hostPattern ''evil.com''"
  by code_simp

lemma VerifyPayload_example:
  "VerifyPayload (example_env status) example_payload w =
     (None, w @ [''https://sns.us-east-1.amazonaws.com/cert.pem''])"
  by (simp add: VerifyPayload_def example_env_def example_payload_def Get_def ReadAll_def
      SignatureAlgorithm_def Match_example_host)

text \<open>
  C2. VerifyPayload returns the nil error only if the SigningCertURL has scheme https, its
  host matches the host pattern, and the certificate parsed from what that URL serves
  validates the decoded signature over the bytes of BuildSignature, under the algorithm of
  SignatureAlgorithm; so when any of the three fails, the result is an error.
\<close>

theorem VerifyPayload_success_only_if:
  "fst (VerifyPayload env payload w) = None \<Longrightarrow>
   \<exists>payloadSignature certURL resp body decodedPem parsedCertificate.
     base64_DecodeString env (Signature payload) = Inr payloadSignature \<and>
     url_Parse env (SigningCertURL payload) = Inr certURL \<and>
     Scheme certURL = ''https'' \<and>
     Match hostPattern (Host certURL) \<and>
     http_Get env (SigningCertURL payload) = Inr resp \<and>
     ReadAll (Body resp) = Inr body \<and>
     pem_Decode env body = Some decodedPem \<and>
     x509_ParseCertificate env decodedPem = Inr parsedCertificate \<and>
     CheckSignature env parsedCertificate (SignatureAlgorithm payload)
       (BuildSignature payload) payloadSignature = None"
  by (auto simp: VerifyPayload_def Get_def split: sum.splits if_splits option.splits)

theorem VerifyPayload_success_only_if_witness:
  "fst (VerifyPayload (example_env 200) example_payload []) = None \<and>
   (\<exists>payloadSignature certURL resp body decodedPem parsedCertificate.
     base64_DecodeString (example_env 200) (Signature example_payload) = Inr payloadSignature \<and>
     url_Parse (example_env 200) (SigningCertURL example_payload) = Inr certURL \<and>
     Scheme certURL = ''https'' \<and>
     Match hostPattern (Host certURL) \<and>
     http_Get (example_env 200) (SigningCertURL example_payload) = Inr resp \<and>
     ReadAll (Body resp) = Inr body \<and>
     pem_Decode (example_env 200) body = Some decodedPem \<and>
     x509_ParseCertificate (example_env 200) decodedPem = Inr parsedCertificate \<and>
     CheckSignature (example_env 200) parsedCertificate (SignatureAlgorithm example_payload)
       (BuildSignature example_payload) payloadSignature = None)"
proof -
  have ok: "fst (VerifyPayload (example_env 200) example_payload []) = None"
    by (simp add: VerifyPayload_example)
  show ?thesis using ok VerifyPayload_success_only_if [OF ok] by blast
qed

text \<open>
  C5. VerifyPayload requests nothing from the network unless the Signature decoded, the
  SigningCertURL parsed, its scheme was https and its host matched the pattern. When one of
  the four fails, the error of the first failing step is returned and the list of requests
  is unchanged; a Signature that does not decode, and a SigningCertURL whose scheme is not
  https, give an error without any request.
\<close>

theorem VerifyPayload_no_fetch_before_checks:
  "(snd (VerifyPayload env payload w) \<noteq> w \<longrightarrow>
      (\<exists>payloadSignature certURL.
         base64_DecodeString env (Signature payload) = Inr payloadSignature \<and>
         url_Parse env (SigningCertURL payload) = Inr certURL \<and>
         Scheme certURL = ''https'' \<and> Match hostPattern (Host certURL))) \<and>
   (base64_DecodeString env (Signature payload) = Inl err \<longrightarrow>
      VerifyPayload env payload w = (Some err, w)) \<and>
   (base64_DecodeString env (Signature payload) = Inr payloadSignature \<and>
    url_Parse env (SigningCertURL payload) = Inl err \<longrightarrow>
      VerifyPayload env payload w = (Some err, w)) \<and>
   (base64_DecodeString env (Signature payload) = Inr payloadSignature \<and>
    url_Parse env (SigningCertURL payload) = Inr certURL \<and> Scheme certURL \<noteq> ''https'' \<longrightarrow>
      VerifyPayload env payload w = (Some (Error ''url should be using https''), w)) \<and>
   (base64_DecodeString env (Signature payload) = Inr payloadSignature \<and>
    url_Parse env (SigningCertURL payload) = Inr certURL \<and> Scheme certURL = ''https'' \<and>
    \<not> Match hostPattern (Host certURL) \<longrightarrow>
      VerifyPayload env payload w =
        (Some (Error ''certificate is located on an invalid domain''), w)) \<and>
   (url_Parse env (SigningCertURL payload) = Inr certURL \<and> Scheme certURL \<noteq> ''https'' \<longrightarrow>
      fst (VerifyPayload env payload w) \<noteq> None \<and> snd (VerifyPayload env payload w) = w)"
  by (auto simp: VerifyPayload_def Get_def split: sum.splits if_splits option.splits)

theorem VerifyPayload_no_fetch_before_checks_witness:
  "VerifyPayload (example_env 200) (example_payload\<lparr>Signature := ''!''\<rparr>) [] =
     (Some (Error ''illegal base64 data at input byte 0''), []) \<and>
   VerifyPayload (example_env 200) (example_payload\<lparr>SigningCertURL := '':''\<rparr>) [] =
     (Some (Error ''missing protocol scheme''), []) \<and>
   VerifyPayload (example_env 200)
     (example_payload\<lparr>SigningCertURL := ''http://sns.us-east-1.amazonaws.com/cert.pem''\<rparr>) [] =
     (Some (Error ''url should be using https''), []) \<and>
   VerifyPayload (example_env 200)
     (example_payload\<lparr>SigningCertURL := ''https://evil.com/sns.us-east-1.amazonaws.com/cert.pem''\<rparr>) [] =
     (Some (Error ''certificate is located on an invalid domain''), []) \<and>
   snd (VerifyPayload (example_env 200) example_payload []) \<noteq> [] \<and>
   Match hostPattern ''sns.us-east-1.amazonaws.com''"
proof -
  note t = VerifyPayload_no_fetch_before_checks
  have "VerifyPayload (example_env 200) (example_payload\<lparr>Signature := ''!''\<rparr>) [] =
     (Some (Error ''illegal base64 data at input byte 0''), [])"
    using t [of "example_env 200" "example_payload\<lparr>Signature := ''!''\<rparr>" "[]"
        "Error ''illegal base64 data at input byte 0''"]
    by (simp add: example_env_def example_payload_def)
  moreover have "VerifyPayload (example_env 200) (example_payload\<lparr>SigningCertURL := '':''\<rparr>) [] =
     (Some (Error ''missing protocol scheme''), [])"
    using t [of "example_env 200" "example_payload\<lparr>SigningCertURL := '':''\<rparr>" "[]"
        "Error ''missing protocol scheme''" "''sig''"]
    by (simp add: example_env_def example_payload_def)
  moreover have "VerifyPayload (example_env 200)
     (example_payload\<lparr>SigningCertURL := ''http://sns.us-east-1.amazonaws.com/cert.pem''\<rparr>) [] =
     (Some (Error ''url should be using https''), [])"
    using t [of "example_env 200"
        "example_payload\<lparr>SigningCertURL := ''http://sns.us-east-1.amazonaws.com/cert.pem''\<rparr>" "[]"
        _ "''sig''" "\<lparr>Scheme = ''http'', Host = ''sns.us-east-1.amazonaws.com''\<rparr>"]
    by (simp add: example_env_def example_payload_def)
  moreover have "VerifyPayload (example_env 200)
     (example_payload\<lparr>SigningCertURL := ''https://evil.com/sns.us-east-1.amazonaws.com/cert.pem''\<rparr>) [] =
     (Some (Error ''certificate is located on an invalid domain''), [])"
    using t [of "example_env 200"
        "example_payload\<lparr>SigningCertURL := ''https://evil.com/sns.us-east-1.amazonaws.com/cert.pem''\<rparr>" "[]"
        _ "''sig''" "\<lparr>Scheme = ''https'', Host = ''evil.com''\<rparr>"]
    by (simp add: example_env_def example_payload_def not_Match_evil_host)
  moreover have fetched: "snd (VerifyPayload (example_env 200) example_payload []) \<noteq> []"
    by (simp add: VerifyPayload_example)
  moreover have "Match hostPattern ''sns.us-east-1.amazonaws.com''"
    using fetched t [of "example_env 200" example_payload "[]"]
    by (auto simp: example_env_def example_payload_def)
  ultimately show ?thesis by blast
qed

text \<open>
  C6, as the code has it. When the checks before the request have passed and the transport
  fails, VerifyPayload returns the error of \<^verbatim>\<open>http.Get\<close>, after that one request. The
  status code of a response is not looked at: with every status code replaced by any other,
  VerifyPayload returns the same.
\<close>

theorem VerifyPayload_fetch_failure:
  "(base64_DecodeString env (Signature payload) = Inr payloadSignature \<and>
    url_Parse env (SigningCertURL payload) = Inr certURL \<and> Scheme certURL = ''https'' \<and>
    Match hostPattern (Host certURL) \<and>
    http_Get env (SigningCertURL payload) = Inl err \<longrightarrow>
      VerifyPayload env payload w = (Some err, w @ [SigningCertURL payload])) \<and>
   VerifyPayload (with_status status env) payload w = VerifyPayload env payload w"
proof (intro conjI impI)
  assume "base64_DecodeString env (Signature payload) = Inr payloadSignature \<and>
    url_Parse env (SigningCertURL payload) = Inr certURL \<and> Scheme certURL = ''https'' \<and>
    Match hostPattern (Host certURL) \<and>
    http_Get env (SigningCertURL payload) = Inl err"
  then show "VerifyPayload env payload w = (Some err, w @ [SigningCertURL payload])"
    by (simp add: VerifyPayload_def Get_def)
next
  show "VerifyPayload (with_status status env) payload w = VerifyPayload env payload w"
    by (cases "http_Get env (SigningCertURL payload)")
      (simp_all add: VerifyPayload_def Get_def with_status_def
        split: sum.splits if_splits option.splits)
qed

theorem VerifyPayload_fetch_failure_witness:
  "VerifyPayload
     ((example_env 200)\<lparr>http_Get := \<lambda>url. Inl (Error ''dial tcp: connection refused'')\<rparr>)
     example_payload [] =
     (Some (Error ''dial tcp: connection refused''), [''https://sns.us-east-1.amazonaws.com/cert.pem'']) \<and>
   VerifyPayload (with_status 500 (example_env 200)) example_payload [] =
     VerifyPayload (example_env 200) example_payload []"
  using VerifyPayload_fetch_failure
    [where env = "(example_env 200)\<lparr>http_Get := \<lambda>url. Inl (Error ''dial tcp: connection refused'')\<rparr>"
       and payload = example_payload and payloadSignature = "''sig''"
       and certURL = "\<lparr>Scheme = ''https'', Host = ''sns.us-east-1.amazonaws.com''\<rparr>"
       and err = "Error ''dial tcp: connection refused''" and w = "[]"]
    VerifyPayload_fetch_failure
    [where env = "example_env 200" and payload = example_payload and w = "[]" and status = 500]
  by (simp add: example_env_def example_payload_def Match_example_host)

text \<open>
  C6, as the specification has it, fails: the server of the example answers 404 Not Found
  with a PEM file in the body, and VerifyPayload reads the body as the certificate and
  returns the nil error.
\<close>

theorem VerifyPayload_non_2xx_counterexample:
  "http_Get (example_env 404) (SigningCertURL example_payload) =
     Inr \<lparr>StatusCode = 404, Body = Inr ''-----BEGIN CERTIFICATE-----''\<rparr> \<and>
   VerifyPayload (example_env 404) example_payload [] =
     (None, [''https://sns.us-east-1.amazonaws.com/cert.pem''])"
  by (simp add: VerifyPayload_example) (simp add: example_env_def)

section \<open>Subscribe and Unsubscribe\<close>

text \<open>
  C10. For a Payload whose SubscribeURL is empty, Subscribe returns an error and the zero
  response, and requests nothing. Unsubscribe has no such check: it always requests its
  UnsubscribeURL, empty or not.
\<close>

theorem Subscribe_empty_URL:
  "(SubscribeURL payload = [] \<longrightarrow>
      Subscribe env payload w =
        ((zero_ConfirmSubscriptionResponse, Some (Error ''Payload does not have a SubscribeURL!'')), w)) \<and>
   snd (Unsubscribe env payload w) = w @ [UnsubscribeURL payload] \<and>
   (UnsubscribeURL payload = [] \<longrightarrow> snd (Unsubscribe env payload w) = w @ [[]])"
  by (simp add: Subscribe_def Unsubscribe_def Get_def Let_def
      split: sum.splits option.splits prod.splits)

theorem Subscribe_empty_URL_witness:
  "Subscribe (example_env 200) example_payload [] =
     ((zero_ConfirmSubscriptionResponse, Some (Error ''Payload does not have a SubscribeURL!'')), []) \<and>
   snd (Unsubscribe (example_env 200) example_payload []) = [[]]"
  using Subscribe_empty_URL [of example_payload "example_env 200" "[]"]
  by (simp add: example_payload_def)

end
